theory Spec2Isabelle
  imports Complex_Main
begin

section \<open>Data model\<close>

subsection \<open>Array entries\<close>

text \<open>
  The entries of the notebook's arrays are \<open>float64\<close> values (or integers, which
  \<open>astype('float64')\<close> converts). An entry is a finite number, an infinity or NaN.
  Arithmetic follows IEEE 754 for the special values and for overflow: an operation on
  finite numbers whose exact result lies beyond the largest \<open>float64\<close> gives an infinity.
  Within that range results are taken exactly: rounding (and with it gradual underflow
  and the sign of zero) is not modelled.
\<close>

datatype fl = Num real | PosInf | NegInf | NaN

text \<open>
  The largest finite \<open>float64\<close>, \<open>(2^53 - 1) * 2^971\<close>, about \<open>1.7976931348623157e308\<close>.
\<close>

definition max_float :: real where
  "max_float =
     179769313486231570814527423731704356798070567525844996598917476803157260780028538760589558632766878171540458953514382464234321326889464182768467546703537516986049910576551282076245490090389328944075868508455133942304583236903222948165808559332123348274797826204144723168738177180919299881250404026184124858368"

text \<open>The value an operation delivers when its exact result is \<open>x\<close>.\<close>

definition overflow :: "real \<Rightarrow> fl" where
  "overflow x = (if max_float < x then PosInf else if x < - max_float then NegInf else Num x)"

text \<open>\<open>a / b\<close> (NumPy's \<open>true_divide\<close>: a zero divisor raises nothing).\<close>

fun fl_div :: "fl \<Rightarrow> fl \<Rightarrow> fl" where
  "fl_div (Num x) (Num y) =
     (if y = 0 then (if x = 0 then NaN else if 0 < x then PosInf else NegInf)
      else overflow (x / y))"
| "fl_div (Num x) PosInf = Num 0"
| "fl_div (Num x) NegInf = Num 0"
| "fl_div PosInf (Num y) = (if 0 \<le> y then PosInf else NegInf)"
| "fl_div NegInf (Num y) = (if 0 \<le> y then NegInf else PosInf)"
| "fl_div a b = NaN"

text \<open>\<open>a * b\<close>.\<close>

fun fl_mul :: "fl \<Rightarrow> fl \<Rightarrow> fl" where
  "fl_mul (Num x) (Num y) = overflow (x * y)"
| "fl_mul (Num x) PosInf = (if x = 0 then NaN else if 0 < x then PosInf else NegInf)"
| "fl_mul (Num x) NegInf = (if x = 0 then NaN else if 0 < x then NegInf else PosInf)"
| "fl_mul PosInf (Num y) = (if y = 0 then NaN else if 0 < y then PosInf else NegInf)"
| "fl_mul NegInf (Num y) = (if y = 0 then NaN else if 0 < y then NegInf else PosInf)"
| "fl_mul PosInf PosInf = PosInf"
| "fl_mul PosInf NegInf = NegInf"
| "fl_mul NegInf PosInf = NegInf"
| "fl_mul NegInf NegInf = PosInf"
| "fl_mul a b = NaN"

text \<open>\<open>a - b\<close>.\<close>

fun fl_sub :: "fl \<Rightarrow> fl \<Rightarrow> fl" where
  "fl_sub (Num x) (Num y) = overflow (x - y)"
| "fl_sub (Num x) PosInf = NegInf"
| "fl_sub (Num x) NegInf = PosInf"
| "fl_sub PosInf (Num y) = PosInf"
| "fl_sub NegInf (Num y) = NegInf"
| "fl_sub PosInf NegInf = PosInf"
| "fl_sub NegInf PosInf = NegInf"
| "fl_sub a b = NaN"

text \<open>
  \<open>np.isclose(a, b, rtol, atol)\<close>: on finite values \<open>|a - b| <= atol + rtol * |b|\<close>; an
  infinity is close only to itself, NaN to nothing. NumPy's defaults are \<open>rtol = 1e-05\<close>
  and \<open>atol = 1e-08\<close>.
\<close>

fun isclose :: "fl \<Rightarrow> fl \<Rightarrow> real \<Rightarrow> real \<Rightarrow> bool" where
  "isclose (Num a) (Num b) rtol atol \<longleftrightarrow> \<bar>a - b\<bar> \<le> atol + rtol * \<bar>b\<bar>"
| "isclose PosInf PosInf rtol atol \<longleftrightarrow> True"
| "isclose NegInf NegInf rtol atol \<longleftrightarrow> True"
| "isclose a b rtol atol \<longleftrightarrow> False"

definition default_rtol :: real where
  "default_rtol = 1 / 100000"

definition default_atol :: real where
  "default_atol = 1 / 100000000"



fun in_range :: "fl \<Rightarrow> bool" where
  "in_range (Num x) \<longleftrightarrow> \<bar>x\<bar> \<le> max_float"
| "in_range v \<longleftrightarrow> True"

fun near_zero :: "real \<Rightarrow> fl \<Rightarrow> bool" where
  "near_zero tol (Num x) \<longleftrightarrow> \<bar>x\<bar> \<le> tol"
| "near_zero tol v \<longleftrightarrow> False"


subsection \<open>Arrays, errors, results\<close>

text \<open>
  A two-dimensional NumPy array is its column count together with the list of its rows;
  the column count is kept apart because an array may have columns and no row.
  \<open>is_matrix M n k\<close> says that \<open>M\<close> is a well-formed \<open>n \<times> k\<close> array of \<open>float64\<close> values.
  \<open>array\<close> is \<open>np.array\<close> applied to a non-empty nested list of numbers.

  Exceptions are values of \<open>error\<close>; a function that can raise returns \<open>error + 'a\<close>.
\<close>

record ndarray =
  ncols :: nat
  rows :: "fl list list"

definition is_matrix :: "ndarray \<Rightarrow> nat \<Rightarrow> nat \<Rightarrow> bool" where
  "is_matrix M n k \<longleftrightarrow>
     length (rows M) = n \<and> ncols M = k
     \<and> list_all (\<lambda>r. length r = k \<and> list_all in_range r) (rows M)"


definition array :: "real list list \<Rightarrow> ndarray" where
  "array xs = \<lparr>ncols = (case xs of [] \<Rightarrow> 0 | r # _ \<Rightarrow> length r), rows = map (map Num) xs\<rparr>"

datatype error = IndexError | ValueError | LinAlgError | NameError

text \<open>
  What \<open>row_echelon_form\<close> and \<open>gaussian_elimination\<close> return: a string, a two-dimensional
  array, or a one-dimensional array (the solution vector).
\<close>

datatype pyval = Str string | Array ndarray | Vector "fl list"

fun is_str :: "pyval \<Rightarrow> bool" where
  "is_str (Str s) = True"
| "is_str (Array M) = False"
| "is_str (Vector v) = False"

text \<open>
  Python integer indexing along an axis of size \<open>n\<close>: \<open>0 .. n-1\<close> count from the front,
  \<open>-n .. -1\<close> from the back, anything else raises \<open>IndexError\<close>.
\<close>

definition py_index :: "nat \<Rightarrow> int \<Rightarrow> error + nat" where
  "py_index n i =
     (if 0 \<le> i \<and> i < int n then Inr (nat i)
      else if - int n \<le> i \<and> i < 0 then Inr (nat (int n + i))
      else Inl IndexError)"

text \<open>The slice \<open>xs[s:]\<close>: a negative start counts from the back and is clipped at 0.\<close>

definition slice_from :: "'a list \<Rightarrow> int \<Rightarrow> 'a list" where
  "slice_from xs s = drop (nat (if s < 0 then max 0 (int (length xs) + s) else s)) xs"


section \<open>Row operations\<close>

text \<open>
  \<open>swap_rows\<close>: \<open>M = M.copy(); M[[i, j]] = M[[j, i]]; return M\<close>. The right-hand side is
  read first (rows \<open>j\<close> and \<open>i\<close> of the copy), then row \<open>i\<close> and row \<open>j\<close> are written in
  that order.
\<close>

definition swap_rows :: "ndarray \<Rightarrow> int \<Rightarrow> int \<Rightarrow> error + ndarray" where
  "swap_rows M row_index_1 row_index_2 =
     (case py_index (length (rows M)) row_index_2 of
        Inl e \<Rightarrow> Inl e
      | Inr b \<Rightarrow>
          (case py_index (length (rows M)) row_index_1 of
             Inl e \<Rightarrow> Inl e
           | Inr a \<Rightarrow> Inr (M\<lparr>rows := (rows M)[a := rows M ! b, b := rows M ! a]\<rparr>)))"


section \<open>Augmented matrix\<close>

text \<open>
  \<open>np.hstack((A, B))\<close> on two-dimensional arrays joins the rows pairwise and raises
  \<open>ValueError\<close> when the row counts differ.
\<close>

definition hstack :: "ndarray \<Rightarrow> ndarray \<Rightarrow> error + ndarray" where
  "hstack A B =
     (if length (rows A) = length (rows B)
      then Inr \<lparr>ncols = ncols A + ncols B, rows = map2 (@) (rows A) (rows B)\<rparr>
      else Inl ValueError)"

definition augmented_matrix :: "ndarray \<Rightarrow> ndarray \<Rightarrow> error + ndarray" where
  "augmented_matrix A B = hstack A B"


section \<open>Pivot scanning\<close>

text \<open>
  \<open>get_index_first_non_zero_from_column\<close>: \<open>column_array = M[starting_row:, column]\<close>
  checks the column index against the array's column count and slices the rows; the
  loop over \<open>enumerate(column_array)\<close> returns \<open>i + starting_row\<close> at the first value that
  \<open>np.isclose(val, 0, atol=1e-5)\<close> rejects, and \<open>-1\<close> when there is none.
\<close>

fun scan_column :: "(nat \<times> fl) list \<Rightarrow> int \<Rightarrow> int" where
  "scan_column [] starting_row = - 1"
| "scan_column ((i, val) # rest) starting_row =
     (if \<not> isclose val (Num 0) default_rtol (1 / 100000) then int i + starting_row
      else scan_column rest starting_row)"

definition get_index_first_non_zero_from_column :: "ndarray \<Rightarrow> int \<Rightarrow> int \<Rightarrow> error + int" where
  "get_index_first_non_zero_from_column M column starting_row =
     (case py_index (ncols M) column of
        Inl e \<Rightarrow> Inl e
      | Inr c \<Rightarrow>
          Inr (scan_column (enumerate 0 (map (\<lambda>r. r ! c) (slice_from (rows M) starting_row)))
                 starting_row))"

text \<open>
  \<open>get_index_first_non_zero_from_row\<close>: with \<open>augmented\<close> the last column is cut off
  (\<open>M[:, :-1]\<close>); \<open>M[row]\<close> raises \<open>IndexError\<close> out of range; the loop returns the first
  column index whose value \<open>np.isclose(val, 0, atol=1e-5)\<close> rejects, and \<open>-1\<close> otherwise.
\<close>

fun scan_row :: "(nat \<times> fl) list \<Rightarrow> int" where
  "scan_row [] = - 1"
| "scan_row ((i, val) # rest) =
     (if \<not> isclose val (Num 0) default_rtol (1 / 100000) then int i else scan_row rest)"

definition get_index_first_non_zero_from_row :: "ndarray \<Rightarrow> int \<Rightarrow> bool \<Rightarrow> error + int" where
  "get_index_first_non_zero_from_row M row augmented =
     (let M' = (if augmented then \<lparr>ncols = ncols M - 1, rows = map butlast (rows M)\<rparr> else M)
      in case py_index (length (rows M')) row of
           Inl e \<Rightarrow> Inl e
         | Inr r \<Rightarrow> Inr (scan_row (enumerate 0 (rows M' ! r))))"


section \<open>Row echelon form\<close>

text \<open>
  \<open>np.linalg.det\<close> is code of NumPy (an LU factorisation in \<open>float64\<close>), not of the
  notebook. The functions that call it take it as the parameter \<open>linalg_det\<close>: a routine
  that, given an array, raises or returns a \<open>float64\<close>. Nothing is assumed about it, so
  every statement below holds for whatever NumPy computes. \<open>det_returns d\<close> is the routine
  that returns \<open>d\<close>; it instantiates the parameter in examples.
\<close>

type_synonym det_routine = "ndarray \<Rightarrow> error + fl"

definition det_returns :: "fl \<Rightarrow> det_routine" where
  "det_returns d A = Inr d"

text \<open>\<open>M[i, j]\<close> with indices that come from \<open>range\<close> (never negative).\<close>

definition getitem2 :: "ndarray \<Rightarrow> nat \<Rightarrow> nat \<Rightarrow> error + fl" where
  "getitem2 M i j =
     (if i < length (rows M) \<and> j < ncols M then Inr (rows M ! i ! j) else Inl IndexError)"

text \<open>
  The inner loop \<open>for j in range(row + 1, num_rows)\<close>:
  \<open>value_below_pivot = M[j, row]; M[j] = M[j] - value_below_pivot * M[row]\<close>.
\<close>

fun eliminate_below :: "nat list \<Rightarrow> nat \<Rightarrow> ndarray \<Rightarrow> error + ndarray" where
  "eliminate_below [] row M = Inr M"
| "eliminate_below (j # js) row M =
     (case getitem2 M j row of
        Inl e \<Rightarrow> Inl e
      | Inr value_below_pivot \<Rightarrow>
          eliminate_below js row
            (M\<lparr>rows := (rows M)[j := map2 (\<lambda>x y. fl_sub x (fl_mul value_below_pivot y))
                                        (rows M ! j) (rows M ! row)]\<rparr>))"

text \<open>The tail of the loop body: \<open>M[row] = M[row] / pivot\<close>, then the inner loop.\<close>

definition normalize_and_eliminate :: "nat \<Rightarrow> nat \<Rightarrow> fl \<Rightarrow> ndarray \<Rightarrow> error + ndarray" where
  "normalize_and_eliminate num_rows row pivot M =
     eliminate_below [row + 1..<num_rows] row
       (M\<lparr>rows := (rows M)[row := map (\<lambda>x. fl_div x pivot) (rows M ! row)]\<rparr>)"

text \<open>
  One iteration of \<open>for row in range(num_rows)\<close>. The pivot candidate is tested with
  \<open>np.isclose(pivot_candidate, 0)\<close>, that is with NumPy's default tolerances; \<open>continue\<close>
  leaves the matrix as it is.
\<close>

definition ref_step :: "nat \<Rightarrow> nat \<Rightarrow> ndarray \<Rightarrow> error + ndarray" where
  "ref_step num_rows row M =
     (case getitem2 M row row of
        Inl e \<Rightarrow> Inl e
      | Inr pivot_candidate \<Rightarrow>
          if isclose pivot_candidate (Num 0) default_rtol default_atol then
            (case get_index_first_non_zero_from_column M (int row) (int row + 1) of
               Inl e \<Rightarrow> Inl e
             | Inr swap_row_index \<Rightarrow>
                 if swap_row_index = - 1 then Inr M
                 else
                   (case swap_rows M (int row) swap_row_index of
                      Inl e \<Rightarrow> Inl e
                    | Inr M1 \<Rightarrow>
                        (case getitem2 M1 row row of
                           Inl e \<Rightarrow> Inl e
                         | Inr pivot \<Rightarrow> normalize_and_eliminate num_rows row pivot M1)))
          else normalize_and_eliminate num_rows row pivot_candidate M)"

fun ref_loop :: "nat list \<Rightarrow> nat \<Rightarrow> ndarray \<Rightarrow> error + ndarray" where
  "ref_loop [] num_rows M = Inr M"
| "ref_loop (row # rest) num_rows M =
     (case ref_step num_rows row M of
        Inl e \<Rightarrow> Inl e
      | Inr M' \<Rightarrow> ref_loop rest num_rows M')"

text \<open>
  \<open>row_echelon_form\<close>: the singularity test \<open>np.isclose(np.linalg.det(A), 0)\<close> comes first;
  \<open>astype('float64').copy()\<close> changes no value; then the augmented matrix is reduced row
  by row.
\<close>

definition row_echelon_form :: "det_routine \<Rightarrow> ndarray \<Rightarrow> ndarray \<Rightarrow> error + pyval" where
  "row_echelon_form linalg_det A B =
     (case linalg_det A of
        Inl e \<Rightarrow> Inl e
      | Inr d \<Rightarrow>
          if isclose d (Num 0) default_rtol default_atol then Inr (Str ''singular system'')
          else
            (case augmented_matrix A B of
               Inl e \<Rightarrow> Inl e
             | Inr M \<Rightarrow>
                 (case ref_loop [0..<length (rows A)] (length (rows A)) M of
                    Inl e \<Rightarrow> Inl e
                  | Inr M' \<Rightarrow> Inr (Array M'))))"


section \<open>Solver\<close>

text \<open>
  The notebook has a markdown cell that describes back substitution, but no code cell
  defines the name \<open>back_substitution\<close>: evaluating the call raises \<open>NameError\<close>, whatever
  the argument.
\<close>

definition back_substitution :: "pyval \<Rightarrow> error + pyval" where
  "back_substitution M = Inl NameError"

definition gaussian_elimination :: "det_routine \<Rightarrow> ndarray \<Rightarrow> ndarray \<Rightarrow> error + pyval" where
  "gaussian_elimination linalg_det A B =
     (case row_echelon_form linalg_det A B of
        Inl e \<Rightarrow> Inl e
      | Inr row_echelon_M \<Rightarrow>
          if is_str row_echelon_M then Inr row_echelon_M
          else
            (case back_substitution row_echelon_M of
               Inl e \<Rightarrow> Inl e
             | Inr solution \<Rightarrow> Inr solution))"


section \<open>The same operations on a store of array objects\<close>

text \<open>
  To speak about which objects a call changes, arrays live in a store: the list of all
  array objects created so far, an object's address being its position. \<open>copy\<close>,
  \<open>astype\<close>, \<open>np.hstack\<close> and fancy indexing on the right of an assignment create
  objects; an assignment to \<open>M[...]\<close> writes into the object \<open>M\<close> is bound to. A call
  returns its result (or the exception) together with the store it leaves behind.
  Slices that are only read (\<open>M[starting_row:, column]\<close>) write nothing and are read
  from the object they view.
\<close>

type_synonym addr = nat

type_synonym store = "ndarray list"

text \<open>A result that is a string or a reference to an array object.\<close>

datatype pyref = StrV string | ArrayRef addr

fun deref :: "store \<Rightarrow> pyref \<Rightarrow> pyval" where
  "deref h (StrV s) = Str s"
| "deref h (ArrayRef q) = Array (h ! q)"

definition new_array :: "store \<Rightarrow> ndarray \<Rightarrow> addr \<times> store" where
  "new_array h M = (length h, h @ [M])"

text \<open>
  \<open>swap_rows\<close>: \<open>M = M.copy()\<close> rebinds the local name to a new object; the fancy-indexed
  right-hand side reads rows \<open>j\<close> and \<open>i\<close> of it, then the assignment writes rows \<open>i\<close> and
  \<open>j\<close> of the copy. (Temporaries of expression evaluation are not kept in the store.)
\<close>

definition swap_rows_st :: "store \<Rightarrow> addr \<Rightarrow> int \<Rightarrow> int \<Rightarrow> (error + addr) \<times> store" where
  "swap_rows_st h M row_index_1 row_index_2 =
     (case new_array h (h ! M) of
        (M', h1) \<Rightarrow>
          (case py_index (length (rows (h1 ! M'))) row_index_2 of
             Inl e \<Rightarrow> (Inl e, h1)
           | Inr b \<Rightarrow>
               (case py_index (length (rows (h1 ! M'))) row_index_1 of
                  Inl e \<Rightarrow> (Inl e, h1)
                | Inr a \<Rightarrow>
                    (let rhs_1 = rows (h1 ! M') ! b; rhs_2 = rows (h1 ! M') ! a
                     in (Inr M',
                         h1[M' := (h1 ! M')\<lparr>rows := (rows (h1 ! M'))[a := rhs_1, b := rhs_2]\<rparr>])))))"

definition augmented_matrix_st :: "store \<Rightarrow> addr \<Rightarrow> addr \<Rightarrow> (error + addr) \<times> store" where
  "augmented_matrix_st h A B =
     (case hstack (h ! A) (h ! B) of
        Inl e \<Rightarrow> (Inl e, h)
      | Inr M \<Rightarrow> (case new_array h M of (augmented_M, h1) \<Rightarrow> (Inr augmented_M, h1)))"

fun eliminate_below_st :: "nat list \<Rightarrow> nat \<Rightarrow> addr \<Rightarrow> store \<Rightarrow> (error + addr) \<times> store" where
  "eliminate_below_st [] row M h = (Inr M, h)"
| "eliminate_below_st (j # js) row M h =
     (case getitem2 (h ! M) j row of
        Inl e \<Rightarrow> (Inl e, h)
      | Inr value_below_pivot \<Rightarrow>
          eliminate_below_st js row M
            (h[M := (h ! M)\<lparr>rows := (rows (h ! M))
                  [j := map2 (\<lambda>x y. fl_sub x (fl_mul value_below_pivot y))
                          (rows (h ! M) ! j) (rows (h ! M) ! row)]\<rparr>]))"

definition normalize_and_eliminate_st ::
    "nat \<Rightarrow> nat \<Rightarrow> fl \<Rightarrow> addr \<Rightarrow> store \<Rightarrow> (error + addr) \<times> store" where
  "normalize_and_eliminate_st num_rows row pivot M h =
     eliminate_below_st [row + 1..<num_rows] row M
       (h[M := (h ! M)\<lparr>rows := (rows (h ! M))
             [row := map (\<lambda>x. fl_div x pivot) (rows (h ! M) ! row)]\<rparr>])"

definition ref_step_st :: "nat \<Rightarrow> nat \<Rightarrow> addr \<Rightarrow> store \<Rightarrow> (error + addr) \<times> store" where
  "ref_step_st num_rows row M h =
     (case getitem2 (h ! M) row row of
        Inl e \<Rightarrow> (Inl e, h)
      | Inr pivot_candidate \<Rightarrow>
          if isclose pivot_candidate (Num 0) default_rtol default_atol then
            (case get_index_first_non_zero_from_column (h ! M) (int row) (int row + 1) of
               Inl e \<Rightarrow> (Inl e, h)
             | Inr swap_row_index \<Rightarrow>
                 if swap_row_index = - 1 then (Inr M, h)
                 else
                   (case swap_rows_st h M (int row) swap_row_index of
                      (Inl e, h1) \<Rightarrow> (Inl e, h1)
                    | (Inr M1, h1) \<Rightarrow>
                        (case getitem2 (h1 ! M1) row row of
                           Inl e \<Rightarrow> (Inl e, h1)
                         | Inr pivot \<Rightarrow> normalize_and_eliminate_st num_rows row pivot M1 h1)))
          else normalize_and_eliminate_st num_rows row pivot_candidate M h)"

fun ref_loop_st :: "nat list \<Rightarrow> nat \<Rightarrow> addr \<Rightarrow> store \<Rightarrow> (error + addr) \<times> store" where
  "ref_loop_st [] num_rows M h = (Inr M, h)"
| "ref_loop_st (row # rest) num_rows M h =
     (case ref_step_st num_rows row M h of
        (Inl e, h1) \<Rightarrow> (Inl e, h1)
      | (Inr M1, h1) \<Rightarrow> ref_loop_st rest num_rows M1 h1)"

text \<open>
  \<open>row_echelon_form\<close>: \<open>np.linalg.det\<close> reads its argument and writes nothing;
  \<open>A.astype('float64').copy()\<close> creates two objects and rebinds the local name \<open>A\<close> to
  the second; likewise for \<open>B\<close>.
\<close>

definition row_echelon_form_st ::
    "det_routine \<Rightarrow> store \<Rightarrow> addr \<Rightarrow> addr \<Rightarrow> (error + pyref) \<times> store" where
  "row_echelon_form_st linalg_det h A B =
     (case linalg_det (h ! A) of
        Inl e \<Rightarrow> (Inl e, h)
      | Inr d \<Rightarrow>
          if isclose d (Num 0) default_rtol default_atol then (Inr (StrV ''singular system''), h)
          else
            (case new_array h (h ! A) of
               (A1, h1) \<Rightarrow>
                 (case new_array h1 (h1 ! A1) of
                    (A2, h2) \<Rightarrow>
                      (case new_array h2 (h2 ! B) of
                         (B1, h3) \<Rightarrow>
                           (case new_array h3 (h3 ! B1) of
                              (B2, h4) \<Rightarrow>
                                (case augmented_matrix_st h4 A2 B2 of
                                   (Inl e, h5) \<Rightarrow> (Inl e, h5)
                                 | (Inr M, h5) \<Rightarrow>
                                     (case ref_loop_st [0..<length (rows (h5 ! A2))]
                                             (length (rows (h5 ! A2))) M h5 of
                                        (Inl e, h6) \<Rightarrow> (Inl e, h6)
                                      | (Inr M', h6) \<Rightarrow> (Inr (ArrayRef M'), h6))))))))"

fun is_strv :: "pyref \<Rightarrow> bool" where
  "is_strv (StrV s) = True"
| "is_strv (ArrayRef q) = False"

definition gaussian_elimination_st ::
    "det_routine \<Rightarrow> store \<Rightarrow> addr \<Rightarrow> addr \<Rightarrow> (error + pyref) \<times> store" where
  "gaussian_elimination_st linalg_det h A B =
     (case row_echelon_form_st linalg_det h A B of
        (Inl e, h1) \<Rightarrow> (Inl e, h1)
      | (Inr row_echelon_M, h1) \<Rightarrow>
          if is_strv row_echelon_M then (Inr row_echelon_M, h1)
          else (Inl NameError, h1))"

section \<open>Arithmetic on entries\<close>

lemma max_float_eq: "max_float = (2 ^ 53 - 1) * 2 ^ 971"
  by (simp add: max_float_def)

lemma max_float_ge: "10 ^ 18 \<le> max_float"
  by (simp add: max_float_def)

lemma overflow_small: "\<bar>x\<bar> \<le> 10 ^ 18 \<Longrightarrow> overflow x = Num x"
  using max_float_ge by (auto simp: overflow_def)


lemma in_range_overflow: "in_range (overflow x)"
  by (auto simp: overflow_def)



lemma in_range_fl_mul: "in_range (fl_mul a b)"
  by (cases a; cases b) (simp_all add: in_range_overflow)


lemma isclose_zero: "isclose v (Num 0) rtol atol \<longleftrightarrow> near_zero atol v"
  by (cases v) simp_all

lemma isclose_zero_default:
  "isclose v (Num 0) default_rtol default_atol \<longleftrightarrow> near_zero (1 / 100000000) v"
  by (simp add: isclose_zero default_atol_def)

section \<open>Shapes\<close>

lemma is_matrix_length: "is_matrix M n m \<Longrightarrow> length (rows M) = n"
  by (simp add: is_matrix_def)

lemma is_matrix_ncols: "is_matrix M n m \<Longrightarrow> ncols M = m"
  by (simp add: is_matrix_def)

lemma is_matrix_nth: "is_matrix M n m \<Longrightarrow> i < n \<Longrightarrow> length (rows M ! i) = m"
  by (simp add: is_matrix_def list_all_length)

lemma is_matrix_row_in_range: "is_matrix M n m \<Longrightarrow> i < n \<Longrightarrow> list_all in_range (rows M ! i)"
  by (simp add: is_matrix_def list_all_length)


lemma is_matrixI:
  assumes "length (rows M) = n" "ncols M = m"
    and "\<And>i. i < n \<Longrightarrow> length (rows M ! i) = m"
    and "\<And>i. i < n \<Longrightarrow> list_all in_range (rows M ! i)"
  shows "is_matrix M n m"
  using assms by (simp add: is_matrix_def list_all_length)



section \<open>Properties of the row operations\<close>

lemma py_index_valid:
  "- int n \<le> i \<Longrightarrow> i < int n \<Longrightarrow> \<exists>a < n. py_index n i = Inr a"
  by (auto simp: py_index_def)

lemma swap_back:
  assumes "a < length xs" "b < length xs"
  shows "((xs[a := xs ! b, b := xs ! a])[b := (xs[a := xs ! b, b := xs ! a]) ! a,
            a := (xs[a := xs ! b, b := xs ! a]) ! b]) = xs"
  using assms by (auto simp: list_eq_iff_nth_eq nth_list_update)

text \<open>
  C9. Swapping rows \<open>i\<close> and \<open>j\<close> and then rows \<open>j\<close> and \<open>i\<close> of the result gives back
  the matrix, entry for entry, for every pair of valid row indices (front or back
  counted, as Python accepts them).
\<close>

theorem swap_rows_twice:
  assumes "- int (length (rows M)) \<le> i" "i < int (length (rows M))"
    and "- int (length (rows M)) \<le> j" "j < int (length (rows M))"
  shows "\<exists>M'. swap_rows M i j = Inr M' \<and> swap_rows M' j i = Inr M"
proof -
  obtain a where a: "a < length (rows M)" "py_index (length (rows M)) i = Inr a"
    using py_index_valid [OF assms(1,2)] by blast
  obtain b where b: "b < length (rows M)" "py_index (length (rows M)) j = Inr b"
    using py_index_valid [OF assms(3,4)] by blast
  let ?M' = "M\<lparr>rows := (rows M)[a := rows M ! b, b := rows M ! a]\<rparr>"
  have 1: "swap_rows M i j = Inr ?M'"
    by (simp add: swap_rows_def a b)
  have 2: "swap_rows ?M' j i = Inr M"
    using swap_back [OF a(1) b(1)] by (simp add: swap_rows_def a b)
  from 1 2 show ?thesis by blast
qed

theorem swap_rows_twice_witness:
  "\<exists>M'. swap_rows (array [[1, 3, 6], [0, - 5, 2], [- 4, 5, 8]]) 0 2 = Inr M'
      \<and> M' = array [[- 4, 5, 8], [0, - 5, 2], [1, 3, 6]]
      \<and> swap_rows M' 2 0 = Inr (array [[1, 3, 6], [0, - 5, 2], [- 4, 5, 8]])"
proof -
  have "swap_rows (array [[1, 3, 6], [0, - 5, 2], [- 4, 5, 8]]) 0 2
      = Inr (array [[- 4, 5, 8], [0, - 5, 2], [1, 3, 6]])"
    by (simp add: swap_rows_def py_index_def array_def)
  with swap_rows_twice [of "array [[1, 3, 6], [0, - 5, 2], [- 4, 5, 8]]" 0 2]
  show ?thesis by (simp add: array_def)
qed

lemma hstack_shape:
  assumes A: "is_matrix A n m" and B: "is_matrix B n k"
  shows "\<exists>M. hstack A B = Inr M \<and> is_matrix M n (m + k)
      \<and> (\<forall>i < n. rows M ! i = rows A ! i @ rows B ! i)"
proof -
  let ?M = "\<lparr>ncols = ncols A + ncols B, rows = map2 (@) (rows A) (rows B)\<rparr>"
  have len: "length (rows A) = n" "length (rows B) = n"
    using A B by (simp_all add: is_matrix_length)
  have h: "hstack A B = Inr ?M" by (simp add: hstack_def len)
  have r: "rows ?M ! i = rows A ! i @ rows B ! i" if "i < n" for i
    using that len by simp
  have "is_matrix ?M n (m + k)"
  proof (rule is_matrixI)
    show "length (rows ?M) = n" using len by simp
    show "ncols ?M = m + k" using A B by (simp add: is_matrix_ncols)
    fix i assume i: "i < n"
    show "length (rows ?M ! i) = m + k"
      using r [OF i] is_matrix_nth [OF A i] is_matrix_nth [OF B i] by simp
    show "list_all in_range (rows ?M ! i)"
      using r [OF i] is_matrix_row_in_range [OF A i] is_matrix_row_in_range [OF B i] by simp
  qed
  with h r show ?thesis by blast
qed

text \<open>
  C10. For an \<open>n \<times> n\<close> matrix \<open>A\<close> and an \<open>n \<times> k\<close> matrix \<open>B\<close>, \<open>augmented_matrix A B\<close>
  returns an \<open>n \<times> (n+k)\<close> matrix whose row \<open>i\<close> is row \<open>i\<close> of \<open>A\<close> followed by row \<open>i\<close> of
  \<open>B\<close>; for \<open>A = [[1,2],[3,4]]\<close> and \<open>B = [[5],[6]]\<close> it returns \<open>[[1,2,5],[3,4,6]]\<close>.
\<close>

theorem augmented_matrix_rows:
  "(is_matrix A n n \<and> is_matrix B n k \<longrightarrow>
      (\<exists>M. augmented_matrix A B = Inr M \<and> is_matrix M n (n + k)
           \<and> (\<forall>i < n. rows M ! i = rows A ! i @ rows B ! i)))
   \<and> augmented_matrix (array [[1, 2], [3, 4]]) (array [[5], [6]])
       = Inr (array [[1, 2, 5], [3, 4, 6]])"
proof -
  have "is_matrix A n n \<and> is_matrix B n k \<longrightarrow>
      (\<exists>M. augmented_matrix A B = Inr M \<and> is_matrix M n (n + k)
           \<and> (\<forall>i < n. rows M ! i = rows A ! i @ rows B ! i))"
    using hstack_shape [of A n n B k] by (auto simp: augmented_matrix_def)
  moreover have "augmented_matrix (array [[1, 2], [3, 4]]) (array [[5], [6]])
       = Inr (array [[1, 2, 5], [3, 4, 6]])"
    by (simp add: augmented_matrix_def hstack_def array_def)
  ultimately show ?thesis by blast
qed

theorem augmented_matrix_rows_witness:
  "is_matrix (array [[1, 2, 3], [3, 4, 5], [4, 5, 6]]) 3 3 \<and> is_matrix (array [[1], [5], [7]]) 3 1
   \<and> (\<exists>M. augmented_matrix (array [[1, 2, 3], [3, 4, 5], [4, 5, 6]]) (array [[1], [5], [7]]) = Inr M
        \<and> is_matrix M 3 4
        \<and> rows M ! 2 = [Num 4, Num 5, Num 6] @ [Num 7])"
proof -
  let ?A = "array [[1, 2, 3], [3, 4, 5], [4, 5, 6]]"
  let ?B = "array [[1], [5], [7]]"
  have shape: "is_matrix ?A 3 3 \<and> is_matrix ?B 3 1"
    using max_float_ge by (simp add: is_matrix_def array_def)
  with augmented_matrix_rows [of ?A 3 ?B 1]
  obtain M where M: "augmented_matrix ?A ?B = Inr M"
    "is_matrix M 3 (3 + 1)" "\<forall>i < 3. rows M ! i = rows ?A ! i @ rows ?B ! i"
    by blast
  from M(3) have "rows M ! 2 = [Num 4, Num 5, Num 6] @ [Num 7]" by (simp add: array_def)
  moreover from M(2) have "is_matrix M 3 4" by simp
  ultimately show ?thesis using shape M(1) by blast
qed

section \<open>Pivot scanning: correctness\<close>

lemma scan_column_Cons:
  "scan_column ((i, v) # rest) s
     = (if near_zero (1 / 100000) v then scan_column rest s else int i + s)"
  by (simp add: isclose_zero)

lemma scan_row_Cons:
  "scan_row ((i, v) # rest) = (if near_zero (1 / 100000) v then scan_row rest else int i)"
  by (simp add: isclose_zero)

lemma scan_column_enumerate:
  assumes "0 \<le> int k + s"
  shows "(scan_column (enumerate k xs) s = - 1 \<and> (\<forall>i < length xs. near_zero (1 / 100000) (xs ! i)))
       \<or> (\<exists>i < length xs. scan_column (enumerate k xs) s = int (k + i) + s
              \<and> \<not> near_zero (1 / 100000) (xs ! i)
              \<and> (\<forall>j < i. near_zero (1 / 100000) (xs ! j)))"
  using assms
proof (induction xs arbitrary: k)
  case Nil
  then show ?case by simp
next
  case (Cons x xs)
  show ?case
  proof (cases "near_zero (1 / 100000) x")
    case False
    then have "scan_column (enumerate k (x # xs)) s = int (k + 0) + s"
      by (simp add: scan_column_Cons del: scan_column.simps)
    with False show ?thesis
      by (intro disjI2 exI [of _ 0]) simp
  next
    case True
    then have step: "scan_column (enumerate k (x # xs)) s = scan_column (enumerate (Suc k) xs) s"
      by (simp add: scan_column_Cons del: scan_column.simps)
    from Cons.prems have "0 \<le> int (Suc k) + s" by simp
    from Cons.IH [OF this] show ?thesis
    proof (elim disjE conjE exE)
      assume a: "scan_column (enumerate (Suc k) xs) s = - 1"
        "\<forall>i<length xs. near_zero (1 / 100000) (xs ! i)"
      have "\<forall>i<length (x # xs). near_zero (1 / 100000) ((x # xs) ! i)"
        using True a(2) by (auto simp: nth_Cons split: nat.splits)
      with a(1) step show ?thesis by (intro disjI1) simp
    next
      fix i
      assume a: "i < length xs" "scan_column (enumerate (Suc k) xs) s = int (Suc k + i) + s"
        "\<not> near_zero (1 / 100000) (xs ! i)" "\<forall>j<i. near_zero (1 / 100000) (xs ! j)"
      have "\<forall>j<Suc i. near_zero (1 / 100000) ((x # xs) ! j)"
        using True a(4) by (auto simp: nth_Cons split: nat.splits)
      moreover have "scan_column (enumerate k (x # xs)) s = int (k + Suc i) + s"
        using step a(2) by simp
      moreover have "Suc i < length (x # xs)" "\<not> near_zero (1 / 100000) ((x # xs) ! Suc i)"
        using a(1,3) by simp_all
      ultimately show ?thesis by (intro disjI2 exI [of _ "Suc i"] conjI)
    qed
  qed
qed

lemma scan_from_column:
  assumes col: "py_index (ncols M) column = Inr c"
    and start: "0 \<le> starting_row"
  shows "\<exists>r. get_index_first_non_zero_from_column M column starting_row = Inr r
      \<and> ((r = - 1 \<and> (\<forall>i < length (rows M). starting_row \<le> int i
                        \<longrightarrow> near_zero (1 / 100000) (rows M ! i ! c)))
         \<or> (starting_row \<le> r \<and> r < int (length (rows M))
            \<and> \<not> near_zero (1 / 100000) (rows M ! nat r ! c)
            \<and> (\<forall>i < nat r. starting_row \<le> int i \<longrightarrow> near_zero (1 / 100000) (rows M ! i ! c))))
      \<and> (int (length (rows M)) \<le> starting_row \<longrightarrow> r = - 1)"
proof -
  define R where "R = rows M"
  define s where "s = nat starting_row"
  define xs where "xs = map (\<lambda>r. r ! c) (drop s R)"
  have s: "starting_row = int s" using start by (simp add: s_def)
  have sl: "slice_from R starting_row = drop s R"
    by (simp add: slice_from_def s)
  have res: "get_index_first_non_zero_from_column M column starting_row
      = Inr (scan_column (enumerate 0 xs) starting_row)"
    by (simp add: get_index_first_non_zero_from_column_def col sl xs_def R_def [symmetric])
  have len: "length xs = length R - s" by (simp add: xs_def)
  have nth: "xs ! (i - s) = R ! i ! c" if "s \<le> i" "i < length R" for i
  proof -
    from that have "s \<le> length R" "i - s < length (drop s R)" by simp_all
    with that show ?thesis by (simp add: xs_def)
  qed
  from start have "0 \<le> int 0 + starting_row" by simp
  from scan_column_enumerate [OF this, of xs]
  have "\<exists>r. get_index_first_non_zero_from_column M column starting_row = Inr r
      \<and> ((r = - 1 \<and> (\<forall>i < length R. starting_row \<le> int i
                        \<longrightarrow> near_zero (1 / 100000) (R ! i ! c)))
         \<or> (starting_row \<le> r \<and> r < int (length R)
            \<and> \<not> near_zero (1 / 100000) (R ! nat r ! c)
            \<and> (\<forall>i < nat r. starting_row \<le> int i \<longrightarrow> near_zero (1 / 100000) (R ! i ! c))))
      \<and> (int (length R) \<le> starting_row \<longrightarrow> r = - 1)"
  proof (elim disjE conjE exE)
    assume a: "scan_column (enumerate 0 xs) starting_row = - 1"
      "\<forall>i<length xs. near_zero (1 / 100000) (xs ! i)"
    have "near_zero (1 / 100000) (R ! i ! c)" if "i < length R" "starting_row \<le> int i" for i
    proof -
      from that have i: "s \<le> i" "i - s < length xs" by (auto simp: s len)
      from a(2) i(2) have "near_zero (1 / 100000) (xs ! (i - s))" by blast
      with nth [OF i(1) that(1)] show ?thesis by simp
    qed
    then have "\<forall>i < length R. starting_row \<le> int i \<longrightarrow> near_zero (1 / 100000) (R ! i ! c)"
      by blast
    with res a(1) show ?thesis by blast
  next
    fix i
    assume a: "i < length xs" "scan_column (enumerate 0 xs) starting_row = int (0 + i) + starting_row"
      "\<not> near_zero (1 / 100000) (xs ! i)" "\<forall>j<i. near_zero (1 / 100000) (xs ! j)"
    define r where "r = int i + starting_row"
    have r: "nat r = s + i" by (simp add: r_def s)
    have lt: "s + i < length R" using a(1) len by arith
    have 1: "starting_row \<le> r" "r < int (length R)" using lt by (simp_all add: r_def s)
    have "xs ! (s + i - s) = R ! (s + i) ! c" by (rule nth) (use lt in simp_all)
    with a(3) have 2: "\<not> near_zero (1 / 100000) (R ! nat r ! c)" by (simp add: r)
    have "near_zero (1 / 100000) (R ! j ! c)" if "j < nat r" "starting_row \<le> int j" for j
    proof -
      from that have j: "s \<le> j" "j - s < i" "j < length R" using lt by (auto simp: s r)
      from a(4) j(2) have "near_zero (1 / 100000) (xs ! (j - s))" by blast
      with nth [OF j(1) j(3)] show ?thesis by simp
    qed
    then have 3: "\<forall>j < nat r. starting_row \<le> int j \<longrightarrow> near_zero (1 / 100000) (R ! j ! c)"
      by blast
    have 4: "int (length R) \<le> starting_row \<longrightarrow> r = - 1" using 1 by simp
    have 5: "get_index_first_non_zero_from_column M column starting_row = Inr r"
      using res a(2) by (simp add: r_def)
    from 5 1 2 3 4 show ?thesis by blast
  qed
  then show ?thesis by (simp add: R_def)
qed

text \<open>
  C7 as stated fails for a negative \<open>starting_row\<close>: \<open>M[starting_row:]\<close> then counts from
  the end (clipped at the first row) while the offset added to the loop index stays
  negative. In the two-row array with column \<open>[0, 1]\<close>, \<open>starting_row = -5\<close> gives \<open>-4\<close>,
  which is no row index of the array at all, and \<open>starting_row = -1\<close> gives \<open>-1\<close>, the
  not-found marker, although the entry of row 1 is the non-zero \<open>1\<close>.
\<close>

theorem negative_starting_row_counterexample:
  "get_index_first_non_zero_from_column (array [[0], [1]]) 0 (- 5) = Inr (- 4)
   \<and> py_index (length (rows (array [[0], [1]]))) (- 4) = Inl IndexError
   \<and> get_index_first_non_zero_from_column (array [[0], [1]]) 0 (- 1) = Inr (- 1)
   \<and> rows (array [[0], [1]]) ! 1 ! 0 = Num 1
   \<and> \<not> near_zero (1 / 100000) (Num 1)"
  by (simp add: get_index_first_non_zero_from_column_def py_index_def slice_from_def array_def
      default_rtol_def)

text \<open>
  C7, amended. For every array, every valid column index and every \<open>starting_row >= 0\<close>,
  \<open>get_index_first_non_zero_from_column\<close> returns the smallest row index \<open>r >= starting_row\<close>
  whose entry in that column is non-zero (not a finite number of absolute value at most
  \<open>1e-5\<close>), and \<open>-1\<close> when every entry from \<open>starting_row\<close> to the last row is zero; in
  particular it returns \<open>-1\<close> when \<open>starting_row\<close> is at or beyond the row count.
\<close>

theorem first_non_zero_from_column:
  assumes col: "py_index (ncols M) column = Inr c"
    and start: "0 \<le> starting_row"
  shows "\<exists>r. get_index_first_non_zero_from_column M column starting_row = Inr r
      \<and> ((r = - 1 \<and> (\<forall>i < length (rows M). starting_row \<le> int i
                        \<longrightarrow> near_zero (1 / 100000) (rows M ! i ! c)))
         \<or> (starting_row \<le> r \<and> r < int (length (rows M))
            \<and> \<not> near_zero (1 / 100000) (rows M ! nat r ! c)
            \<and> (\<forall>i < nat r. starting_row \<le> int i \<longrightarrow> near_zero (1 / 100000) (rows M ! i ! c))))
      \<and> (int (length (rows M)) \<le> starting_row \<longrightarrow> r = - 1)"
  using col start by (rule scan_from_column)

theorem first_non_zero_from_column_witness:
  "py_index (ncols (array [[0, 0, 0], [0, 5, 0], [0, 0, 9]])) 1 = Inr 1 \<and> (0::int) \<le> 0
   \<and> get_index_first_non_zero_from_column (array [[0, 0, 0], [0, 5, 0], [0, 0, 9]]) 1 0 = Inr 1
   \<and> py_index (ncols \<lparr>ncols = 3, rows = []\<rparr>) (- 1) = Inr 2 \<and> (0::int) \<le> 4
   \<and> get_index_first_non_zero_from_column \<lparr>ncols = 3, rows = []\<rparr> (- 1) 4 = Inr (- 1)"
proof -
  let ?M = "array [[0, 0, 0], [0, 5, 0], [0, 0, 9]]"
  let ?E = "\<lparr>ncols = 3, rows = []\<rparr> :: ndarray"
  have h: "py_index (ncols ?M) 1 = Inr 1"
    by (simp add: py_index_def array_def)
  have e: "py_index (ncols ?E) (- 1) = Inr 2"
    by (simp add: py_index_def)
  have ev: "get_index_first_non_zero_from_column ?M 1 0 = Inr 1"
    by (simp add: get_index_first_non_zero_from_column_def py_index_def slice_from_def
        enumerate_eq_zip default_rtol_def upt_rec array_def)
  from first_non_zero_from_column [OF h, of 0] ev
  have 1: "get_index_first_non_zero_from_column ?M 1 0 = Inr 1" by blast
  from first_non_zero_from_column [OF e, of 4]
  have 2: "get_index_first_non_zero_from_column ?E (- 1) 4 = Inr (- 1)" by auto
  from h e 1 2 show ?thesis by simp
qed

section \<open>Evaluating the reduction on small inputs\<close>

lemmas eval_defs = row_echelon_form_def gaussian_elimination_def back_substitution_def
  det_returns_def array_def augmented_matrix_def hstack_def
  ref_step_def getitem2_def normalize_and_eliminate_def default_atol_def default_rtol_def
  get_index_first_non_zero_from_column_def py_index_def slice_from_def swap_rows_def
  overflow_small

lemmas eval_upt = upt_rec [of _ "numeral k" for k] upt_rec [of 0 "Suc 0"]

section \<open>Solver: singular systems and the missing back substitution\<close>

lemma gaussian_elimination_singular:
  "row_echelon_form linalg_det A B = Inr (Str s) \<Longrightarrow> gaussian_elimination linalg_det A B = Inr (Str s)"
  by (simp add: gaussian_elimination_def)

lemma gaussian_elimination_array:
  "row_echelon_form linalg_det A B = Inr (Array M)
   \<Longrightarrow> gaussian_elimination linalg_det A B = Inl NameError"
  by (simp add: gaussian_elimination_def back_substitution_def)

lemma row_echelon_form_nonsingular:
  assumes "linalg_det A = Inr d" "\<not> isclose d (Num 0) default_rtol default_atol"
  shows "row_echelon_form linalg_det A B =
     (case augmented_matrix A B of
        Inl e \<Rightarrow> Inl e
      | Inr M \<Rightarrow>
          (case ref_loop [0..<length (rows A)] (length (rows A)) M of
             Inl e \<Rightarrow> Inl e
           | Inr M' \<Rightarrow> Inr (Array M')))"
  using assms by (simp add: row_echelon_form_def)

lemma readme_reduction:
  "(case augmented_matrix (array [[2, 1, - 1], [- 3, - 1, 2], [- 2, 1, 2]])
           (array [[8], [- 11], [- 3]]) of
      Inl e \<Rightarrow> Inl e
    | Inr M \<Rightarrow>
        (case ref_loop [0..<length (rows (array [[2, 1, - 1], [- 3, - 1, 2], [- 2, 1, 2]]))]
                (length (rows (array [[2, 1, - 1], [- 3, - 1, 2], [- 2, 1, 2]]))) M of
           Inl e \<Rightarrow> Inl e
         | Inr M' \<Rightarrow> Inr (Array M')))
   = Inr (Array (array [[1, 1 / 2, - (1 / 2), 4], [0, 1, 1, 2], [0, 0, 1, - 1]]))"
  by (simp add: eval_defs eval_upt)

text \<open>
  C1. On the system of the notebook's own example (\<open>2x + y - z = 8\<close>, \<open>-3x - y + 2z = -11\<close>,
  \<open>-2x + y + 2z = -3\<close>, which the notebook and its README document as solved by
  \<open>[2, 3, -1]\<close>), whatever value \<open>np.linalg.det\<close> returns that the singularity test lets
  pass (the determinant is about \<open>-1\<close>), the reduction succeeds and
  \<open>gaussian_elimination\<close> then raises \<open>NameError\<close>: no solution vector is returned.
\<close>

theorem gaussian_elimination_readme_example:
  assumes "linalg_det (array [[2, 1, - 1], [- 3, - 1, 2], [- 2, 1, 2]]) = Inr d"
    and "\<not> isclose d (Num 0) default_rtol default_atol"
  shows "row_echelon_form linalg_det (array [[2, 1, - 1], [- 3, - 1, 2], [- 2, 1, 2]])
        (array [[8], [- 11], [- 3]])
      = Inr (Array (array [[1, 1 / 2, - (1 / 2), 4], [0, 1, 1, 2], [0, 0, 1, - 1]]))
    \<and> gaussian_elimination linalg_det (array [[2, 1, - 1], [- 3, - 1, 2], [- 2, 1, 2]])
        (array [[8], [- 11], [- 3]])
      = Inl NameError"
proof -
  have "row_echelon_form linalg_det (array [[2, 1, - 1], [- 3, - 1, 2], [- 2, 1, 2]])
        (array [[8], [- 11], [- 3]])
      = Inr (Array (array [[1, 1 / 2, - (1 / 2), 4], [0, 1, 1, 2], [0, 0, 1, - 1]]))"
    unfolding row_echelon_form_nonsingular [of linalg_det, OF assms] by (rule readme_reduction)
  then show ?thesis by (simp add: gaussian_elimination_array)
qed

theorem gaussian_elimination_readme_example_witness:
  "det_returns (Num (- 1)) (array [[2, 1, - 1], [- 3, - 1, 2], [- 2, 1, 2]]) = Inr (Num (- 1))
   \<and> \<not> isclose (Num (- 1)) (Num 0) default_rtol default_atol
   \<and> row_echelon_form (det_returns (Num (- 1))) (array [[2, 1, - 1], [- 3, - 1, 2], [- 2, 1, 2]])
        (array [[8], [- 11], [- 3]])
      = Inr (Array (array [[1, 1 / 2, - (1 / 2), 4], [0, 1, 1, 2], [0, 0, 1, - 1]]))
   \<and> gaussian_elimination (det_returns (Num (- 1)))
        (array [[2, 1, - 1], [- 3, - 1, 2], [- 2, 1, 2]]) (array [[8], [- 11], [- 3]])
      = Inl NameError"
proof -
  have d: "det_returns (Num (- 1)) (array [[2, 1, - 1], [- 3, - 1, 2], [- 2, 1, 2]]) = Inr (Num (- 1))"
    by (simp add: det_returns_def)
  have t: "\<not> isclose (Num (- 1)) (Num 0) default_rtol default_atol"
    by (simp add: default_atol_def)
  from gaussian_elimination_readme_example [of "det_returns (Num (- 1))", OF d t] d t
  show ?thesis by blast
qed

text \<open>
  C2 as stated fails: a computed determinant of \<open>1e-6\<close> is zero within the spec's
  tolerance \<open>1e-5\<close>, yet \<open>row_echelon_form\<close> does not return the marker: it reduces the
  matrix, and \<open>gaussian_elimination\<close> goes on to the call of \<open>back_substitution\<close>.
\<close>

theorem small_determinant_counterexample:
  "near_zero (1 / 100000) (Num (1 / 1000000))
   \<and> row_echelon_form (det_returns (Num (1 / 1000000)))
        (array [[1 / 1000, 0], [0, 1 / 1000]]) (array [[1], [2]])
      = Inr (Array (array [[1, 0, 1000], [0, 1, 2000]]))
   \<and> gaussian_elimination (det_returns (Num (1 / 1000000)))
        (array [[1 / 1000, 0], [0, 1 / 1000]]) (array [[1], [2]])
      = Inl NameError"
  by (simp add: eval_defs eval_upt)

text \<open>
  C2, amended. When the value that \<open>np.linalg.det\<close> returns for \<open>A\<close> is a finite number of
  absolute value at most \<open>1e-8\<close> (the test \<open>np.isclose(det, 0)\<close> with NumPy's default
  tolerances), \<open>row_echelon_form\<close> returns the string \<open>'singular system'\<close> whatever \<open>B\<close> is
  (nothing of \<open>B\<close> is read, so no elimination has started), \<open>gaussian_elimination\<close> returns
  that same string (back substitution is not called: the call would raise), and the
  result is never a vector.
\<close>

theorem singular_marker:
  assumes "linalg_det A = Inr d" and "near_zero (1 / 100000000) d"
  shows "row_echelon_form linalg_det A B = Inr (Str ''singular system'')
      \<and> gaussian_elimination linalg_det A B = Inr (Str ''singular system'')
      \<and> (\<forall>v. gaussian_elimination linalg_det A B \<noteq> Inr (Vector v))"
proof -
  have "row_echelon_form linalg_det A B = Inr (Str ''singular system'')"
    using assms by (simp add: row_echelon_form_def isclose_zero_default)
  then show ?thesis
    by (simp add: gaussian_elimination_singular)
qed

theorem singular_marker_witness:
  "det_returns (Num 0) (array [[1, 2], [2, 4]]) = Inr (Num 0)
   \<and> near_zero (1 / 100000000) (Num 0)
   \<and> row_echelon_form (det_returns (Num 0)) (array [[1, 2], [2, 4]]) (array [[8], [- 11], [- 3]])
       = Inr (Str ''singular system'')
   \<and> gaussian_elimination (det_returns (Num 0)) (array [[1, 2], [2, 4]])
        (array [[8], [- 11], [- 3]])
       = Inr (Str ''singular system'')"
proof -
  have d: "det_returns (Num 0) (array [[1, 2], [2, 4]]) = Inr (Num 0)"
    by (simp add: det_returns_def)
  have z: "near_zero (1 / 100000000) (Num 0)" by simp
  from singular_marker [of "det_returns (Num 0)", OF d z, of "array [[8], [- 11], [- 3]]"] d z
  show ?thesis by blast
qed

text \<open>
  C3. Whenever \<open>row_echelon_form\<close> returns a matrix, \<open>gaussian_elimination\<close> raises
  \<open>NameError\<close> at the call of the undefined \<open>back_substitution\<close> and returns no solution
  vector.
\<close>

theorem undefined_back_substitution:
  assumes "row_echelon_form linalg_det A B = Inr (Array M)"
  shows "gaussian_elimination linalg_det A B = Inl NameError
      \<and> (\<forall>v. gaussian_elimination linalg_det A B \<noteq> Inr (Vector v))"
  using assms by (simp add: gaussian_elimination_array)

theorem undefined_back_substitution_witness:
  "row_echelon_form (det_returns (Num 5)) (array [[1, 2, 3], [0, 1, 0], [0, 0, 5]])
       (array [[1], [2], [4]])
     = Inr (Array (array [[1, 2, 3, 1], [0, 1, 0, 2], [0, 0, 1, 4 / 5]]))
   \<and> gaussian_elimination (det_returns (Num 5)) (array [[1, 2, 3], [0, 1, 0], [0, 0, 5]])
       (array [[1], [2], [4]])
     = Inl NameError"
proof -
  have r: "row_echelon_form (det_returns (Num 5)) (array [[1, 2, 3], [0, 1, 0], [0, 0, 5]])
       (array [[1], [2], [4]])
     = Inr (Array (array [[1, 2, 3, 1], [0, 1, 0, 2], [0, 0, 1, 4 / 5]]))"
    by (simp add: eval_defs eval_upt)
  from undefined_back_substitution [of "det_returns (Num 5)", OF r] r show ?thesis by simp
qed

section \<open>Tolerances of the zero tests\<close>

lemma pivot_test:
  assumes "getitem2 M row row = Inr p"
  shows "ref_step n row M =
     (if near_zero (1 / 100000000) p then
        (case get_index_first_non_zero_from_column M (int row) (int row + 1) of
           Inl e \<Rightarrow> Inl e
         | Inr swap_row_index \<Rightarrow>
             if swap_row_index = - 1 then Inr M
             else
               (case swap_rows M (int row) swap_row_index of
                  Inl e \<Rightarrow> Inl e
                | Inr M1 \<Rightarrow>
                    (case getitem2 M1 row row of
                       Inl e \<Rightarrow> Inl e
                     | Inr pivot \<Rightarrow> normalize_and_eliminate n row pivot M1)))
      else normalize_and_eliminate n row p M)"
  using assms by (simp add: ref_step_def isclose_zero_default)

lemma det_test:
  assumes "linalg_det A = Inr d"
  shows "(row_echelon_form linalg_det A B = Inr (Str ''singular system''))
      \<longleftrightarrow> near_zero (1 / 100000000) d"
  using assms by (simp add: row_echelon_form_def isclose_zero_default split: sum.splits)

text \<open>
  C4 as stated fails: a determinant of \<open>1e-6\<close> is within \<open>1e-5\<close> of zero, yet the
  singularity test lets it pass, and the pivot-candidate test takes \<open>1e-6\<close> as a pivot
  although a larger entry stands below it.
\<close>

theorem tolerance_counterexample:
  "near_zero (1 / 100000) (Num (1 / 1000000))
   \<and> row_echelon_form (det_returns (Num (1 / 1000000))) (array [[1 / 1000000]]) (array [[1]])
       = Inr (Array (array [[1, 1000000]]))
   \<and> row_echelon_form (det_returns (Num (1 / 1000000))) (array [[1 / 1000000]]) (array [[1]])
       \<noteq> Inr (Str ''singular system'')
   \<and> ref_step 2 0 (array [[1 / 1000000, 1, 1], [1, 0, 2]])
       = Inr (array [[1, 1000000, 1000000], [0, - 1000000, - 999998]])"
  by (simp add: eval_defs eval_upt)

text \<open>
  C4, amended. Every comparison of a value to zero uses an absolute tolerance, never
  exact equality: the entry tests of both pivot scanners take a value as zero exactly
  when it is a finite number of absolute value at most \<open>1e-5\<close>; the pivot-candidate test
  and the determinant singularity test, which call \<open>np.isclose\<close> without \<open>atol\<close>, take a
  value as zero exactly when it is a finite number of absolute value at most \<open>1e-8\<close>.
  (Infinities and NaN are never taken as zero.)
\<close>

theorem zero_test_tolerances:
  "scan_column ((i, v) # rest) s
     = (if near_zero (1 / 100000) v then scan_column rest s else int i + s)
   \<and> scan_row ((i, v) # rest) = (if near_zero (1 / 100000) v then scan_row rest else int i)
   \<and> (getitem2 M row row = Inr p \<longrightarrow>
        ref_step n row M =
          (if near_zero (1 / 100000000) p then
             (case get_index_first_non_zero_from_column M (int row) (int row + 1) of
                Inl e \<Rightarrow> Inl e
              | Inr swap_row_index \<Rightarrow>
                  if swap_row_index = - 1 then Inr M
                  else
                    (case swap_rows M (int row) swap_row_index of
                       Inl e \<Rightarrow> Inl e
                     | Inr M1 \<Rightarrow>
                         (case getitem2 M1 row row of
                            Inl e \<Rightarrow> Inl e
                          | Inr pivot \<Rightarrow> normalize_and_eliminate n row pivot M1)))
           else normalize_and_eliminate n row p M))
   \<and> (linalg_det A = Inr d \<longrightarrow>
        (row_echelon_form linalg_det A B = Inr (Str ''singular system''))
          = near_zero (1 / 100000000) d)"
  using scan_column_Cons scan_row_Cons pivot_test det_test by blast

theorem zero_test_tolerances_witness:
  "getitem2 (array [[1 / 1000000000, 1, 1], [1, 0, 2]]) 0 0 = Inr (Num (1 / 1000000000))
   \<and> near_zero (1 / 100000000) (Num (1 / 1000000000))
   \<and> ref_step 2 0 (array [[1 / 1000000000, 1, 1], [1, 0, 2]])
       = Inr (array [[1, 0, 2], [0, 1, 1 - 2 / 1000000000]])
   \<and> getitem2 (array [[1 / 1000000, 1, 1], [1, 0, 2]]) 0 0 = Inr (Num (1 / 1000000))
   \<and> \<not> near_zero (1 / 100000000) (Num (1 / 1000000))
   \<and> ref_step 2 0 (array [[1 / 1000000, 1, 1], [1, 0, 2]])
       = normalize_and_eliminate 2 0 (Num (1 / 1000000)) (array [[1 / 1000000, 1, 1], [1, 0, 2]])
   \<and> det_returns (Num (1 / 1000000000)) (array [[1 / 1000000000]]) = Inr (Num (1 / 1000000000))
   \<and> row_echelon_form (det_returns (Num (1 / 1000000000))) (array [[1 / 1000000000]]) (array [[1]])
       = Inr (Str ''singular system'')"
proof -
  let ?M = "array [[1 / 1000000000, 1, 1], [1, 0, 2]]"
  let ?N = "array [[1 / 1000000, 1, 1], [1, 0, 2]]"
  have g: "getitem2 ?M 0 0 = Inr (Num (1 / 1000000000))"
    by (simp add: getitem2_def array_def)
  have g': "getitem2 ?N 0 0 = Inr (Num (1 / 1000000))"
    by (simp add: getitem2_def array_def)
  have z: "near_zero (1 / 100000000) (Num (1 / 1000000000))"
    "\<not> near_zero (1 / 100000000) (Num (1 / 1000000))" by simp_all
  have d: "det_returns (Num (1 / 1000000000)) (array [[1 / 1000000000]]) = Inr (Num (1 / 1000000000))"
    by (simp add: det_returns_def)
  have sw: "(case get_index_first_non_zero_from_column ?M (int 0) (int 0 + 1) of
                Inl e \<Rightarrow> Inl e
              | Inr swap_row_index \<Rightarrow>
                  if swap_row_index = - 1 then Inr ?M
                  else
                    (case swap_rows ?M (int 0) swap_row_index of
                       Inl e \<Rightarrow> Inl e
                     | Inr M1 \<Rightarrow>
                         (case getitem2 M1 0 0 of
                            Inl e \<Rightarrow> Inl e
                          | Inr pivot \<Rightarrow> normalize_and_eliminate 2 0 pivot M1)))
      = Inr (array [[1, 0, 2], [0, 1, 1 - 2 / 1000000000]])"
    by (simp add: eval_defs eval_upt)
  from zero_test_tolerances [of 0 NaN "[]" 0 ?M 0 "Num (1 / 1000000000)" 2
      "det_returns (Num (1 / 1000000000))" "array [[1 / 1000000000]]" "Num (1 / 1000000000)"
      "array [[1]]"] g z(1) d sw
  have 1: "ref_step 2 0 ?M = Inr (array [[1, 0, 2], [0, 1, 1 - 2 / 1000000000]])"
    "row_echelon_form (det_returns (Num (1 / 1000000000))) (array [[1 / 1000000000]]) (array [[1]])
       = Inr (Str ''singular system'')"
    by simp_all
  from zero_test_tolerances [of 0 NaN "[]" 0 ?N 0 "Num (1 / 1000000)" 2
      "det_returns (Num (1 / 1000000000))" "array [[1 / 1000000000]]" "Num (1 / 1000000000)"
      "array [[1]]"] g' z(2)
  have 2: "ref_step 2 0 ?N = normalize_and_eliminate 2 0 (Num (1 / 1000000)) ?N"
    by simp
  from g g' z d 1 2 show ?thesis by blast
qed

section \<open>Row echelon form: shape and totality\<close>









section \<open>Row echelon form: what one iteration does\<close>

















section \<open>Row echelon form: the loop\<close>











section \<open>Row echelon form: skipped rows and the shape of the result\<close>







section \<open>Frame properties on the store\<close>

lemma eliminate_below_st_frame:
  "eliminate_below_st js row M h = (r, h')
   \<Longrightarrow> length h' = length h \<and> (\<forall>p. p \<noteq> M \<longrightarrow> h' ! p = h ! p) \<and> (\<forall>q. r = Inr q \<longrightarrow> q = M)"
proof (induction js arbitrary: h)
  case Nil
  then show ?case by auto
next
  case (Cons j js)
  show ?case
  proof (cases "getitem2 (h ! M) j row")
    case (Inl e)
    with Cons.prems show ?thesis by auto
  next
    case (Inr v)
    define h1 where "h1 = h[M := (h ! M)\<lparr>rows := (rows (h ! M))
        [j := map2 (\<lambda>x y. fl_sub x (fl_mul v y)) (rows (h ! M) ! j) (rows (h ! M) ! row)]\<rparr>]"
    from Cons.prems Inr have "eliminate_below_st js row M h1 = (r, h')"
      by (simp add: h1_def)
    from Cons.IH [OF this] show ?thesis by (simp add: h1_def)
  qed
qed

lemma normalize_and_eliminate_st_frame:
  "normalize_and_eliminate_st n row pivot M h = (r, h')
   \<Longrightarrow> length h' = length h \<and> (\<forall>p. p \<noteq> M \<longrightarrow> h' ! p = h ! p) \<and> (\<forall>q. r = Inr q \<longrightarrow> q = M)"
  unfolding normalize_and_eliminate_st_def
  by (drule eliminate_below_st_frame) simp

lemma swap_rows_st_frame:
  "swap_rows_st h M i j = (r, h')
   \<Longrightarrow> length h' = Suc (length h) \<and> (\<forall>p < length h. h' ! p = h ! p)
       \<and> (\<forall>q. r = Inr q \<longrightarrow> q = length h)"
  by (auto simp: swap_rows_st_def new_array_def Let_def nth_append split: sum.splits)

lemma ref_step_st_frame:
  assumes "ref_step_st n row M h = (r, h')" "M < length h"
  shows "length h \<le> length h' \<and> (\<forall>p < length h. p \<noteq> M \<longrightarrow> h' ! p = h ! p)
       \<and> (\<forall>q. r = Inr q \<longrightarrow> q < length h' \<and> (q = M \<or> length h \<le> q))"
proof (cases "getitem2 (h ! M) row row")
  case (Inl e)
  with assms show ?thesis by (auto simp: ref_step_st_def)
next
  case pc: (Inr pivot_candidate)
  show ?thesis
  proof (cases "isclose pivot_candidate (Num 0) default_rtol default_atol")
    case False
    with assms pc have "normalize_and_eliminate_st n row pivot_candidate M h = (r, h')"
      by (simp add: ref_step_st_def)
    from normalize_and_eliminate_st_frame [OF this] assms(2) show ?thesis by auto
  next
    case True
    show ?thesis
    proof (cases "get_index_first_non_zero_from_column (h ! M) (int row) (int row + 1)")
      case (Inl e)
      with assms pc True show ?thesis by (auto simp: ref_step_st_def)
    next
      case s: (Inr swap_row_index)
      show ?thesis
      proof (cases "swap_row_index = - 1")
        case True
        with assms pc \<open>isclose pivot_candidate (Num 0) default_rtol default_atol\<close> s
        show ?thesis by (auto simp: ref_step_st_def)
      next
        case False
        obtain r1 h1 where sw: "swap_rows_st h M (int row) swap_row_index = (r1, h1)"
          by (cases "swap_rows_st h M (int row) swap_row_index")
        from swap_rows_st_frame [OF sw]
        have f1: "length h1 = Suc (length h)" "\<forall>p < length h. h1 ! p = h ! p"
          "\<forall>q. r1 = Inr q \<longrightarrow> q = length h" by simp_all
        show ?thesis
        proof (cases r1)
          case (Inl e)
          with assms pc \<open>isclose pivot_candidate (Num 0) default_rtol default_atol\<close> s False sw f1
          show ?thesis by (auto simp: ref_step_st_def)
        next
          case M1: (Inr M1)
          with f1 have M1_eq: "M1 = length h" by simp
          show ?thesis
          proof (cases "getitem2 (h1 ! M1) row row")
            case (Inl e)
            with assms pc \<open>isclose pivot_candidate (Num 0) default_rtol default_atol\<close> s False sw M1 f1
            show ?thesis by (auto simp: ref_step_st_def)
          next
            case (Inr pivot)
            with assms pc \<open>isclose pivot_candidate (Num 0) default_rtol default_atol\<close> s False sw M1
            have "normalize_and_eliminate_st n row pivot M1 h1 = (r, h')"
              by (simp add: ref_step_st_def)
            from normalize_and_eliminate_st_frame [OF this]
            have f2: "length h' = length h1" "\<forall>p. p \<noteq> M1 \<longrightarrow> h' ! p = h1 ! p"
              "\<forall>q. r = Inr q \<longrightarrow> q = M1" by simp_all
            have "h' ! p = h ! p" if "p < length h" for p
              using that f1(2) f2(2) M1_eq by simp
            with f1(1) f2(1,3) M1_eq show ?thesis by auto
          qed
        qed
      qed
    qed
  qed
qed

lemma ref_loop_st_frame:
  assumes "ref_loop_st rs n M h = (r, h')" "k \<le> M" "M < length h"
  shows "length h \<le> length h' \<and> (\<forall>p < k. h' ! p = h ! p)
       \<and> (\<forall>q. r = Inr q \<longrightarrow> k \<le> q \<and> q < length h')"
  using assms
proof (induction rs arbitrary: M h)
  case Nil
  then show ?case by auto
next
  case (Cons row rs)
  obtain r1 h1 where st: "ref_step_st n row M h = (r1, h1)"
    by (cases "ref_step_st n row M h")
  from ref_step_st_frame [OF st Cons.prems(3)]
  have f1: "length h \<le> length h1" "\<forall>p < length h. p \<noteq> M \<longrightarrow> h1 ! p = h ! p"
    "\<forall>q. r1 = Inr q \<longrightarrow> q < length h1 \<and> (q = M \<or> length h \<le> q)" by simp_all
  have low: "h1 ! p = h ! p" if "p < k" for p
    using that f1(2) Cons.prems(2,3) by simp
  show ?case
  proof (cases r1)
    case (Inl e)
    with Cons.prems(1) st have "h' = h1" "r = Inl e" by simp_all
    with f1(1) low show ?thesis by simp
  next
    case (Inr M1)
    with Cons.prems(1) st have loop: "ref_loop_st rs n M1 h1 = (r, h')" by simp
    from f1(3) Inr Cons.prems(2,3) have M1: "k \<le> M1" "M1 < length h1" by auto
    from Cons.IH [OF loop M1]
    have "length h1 \<le> length h'" "\<forall>p < k. h' ! p = h1 ! p"
      "\<forall>q. r = Inr q \<longrightarrow> k \<le> q \<and> q < length h'" by simp_all
    with f1(1) low show ?thesis by simp
  qed
qed

lemma take_unchanged:
  assumes "length h \<le> length h'" "\<forall>p < length h. h' ! p = h ! p"
  shows "take (length h) h' = h"
  using assms by (intro nth_equalityI) simp_all

lemma row_echelon_form_st_frame:
  "take (length h) (snd (row_echelon_form_st linalg_det h A B)) = h"
proof (cases "linalg_det (h ! A)")
  case (Inl e)
  then show ?thesis by (simp add: row_echelon_form_st_def)
next
  case d: (Inr d)
  show ?thesis
  proof (cases "isclose d (Num 0) default_rtol default_atol")
    case True
    with d show ?thesis by (simp add: row_echelon_form_st_def)
  next
    case False
    obtain A1 h1 where n1: "new_array h (h ! A) = (A1, h1)"
      by (cases "new_array h (h ! A)")
    obtain A2 h2 where n2: "new_array h1 (h1 ! A1) = (A2, h2)"
      by (cases "new_array h1 (h1 ! A1)")
    obtain B1 h3 where n3: "new_array h2 (h2 ! B) = (B1, h3)"
      by (cases "new_array h2 (h2 ! B)")
    obtain B2 h4 where n4: "new_array h3 (h3 ! B1) = (B2, h4)"
      by (cases "new_array h3 (h3 ! B1)")
    have len4: "length h4 = length h + 4"
      using n1 n2 n3 n4 by (auto simp: new_array_def)
    have low4: "h4 ! p = h ! p" if "p < length h" for p
      using that n1 n2 n3 n4 by (auto simp: new_array_def nth_append)
    have unfold: "row_echelon_form_st linalg_det h A B =
      (case augmented_matrix_st h4 A2 B2 of
         (Inl e, h5) \<Rightarrow> (Inl e, h5)
       | (Inr M, h5) \<Rightarrow>
           (case ref_loop_st [0..<length (rows (h5 ! A2))] (length (rows (h5 ! A2))) M h5 of
              (Inl e, h6) \<Rightarrow> (Inl e, h6)
            | (Inr M', h6) \<Rightarrow> (Inr (ArrayRef M'), h6)))"
      using d False by (simp add: row_echelon_form_st_def n1 n2 n3 n4)
    show ?thesis
    proof (cases "hstack (h4 ! A2) (h4 ! B2)")
      case (Inl e)
      then have "snd (row_echelon_form_st linalg_det h A B) = h4"
        by (simp add: unfold augmented_matrix_st_def)
      then show ?thesis using len4 low4 by (simp add: take_unchanged)
    next
      case (Inr N)
      define h5 where "h5 = h4 @ [N]"
      define M where "M = length h4"
      have aug: "augmented_matrix_st h4 A2 B2 = (Inr M, h5)"
        using Inr by (simp add: augmented_matrix_st_def new_array_def h5_def M_def)
      obtain r6 h6 where loop: "ref_loop_st [0..<length (rows (h5 ! A2))] (length (rows (h5 ! A2))) M h5 = (r6, h6)"
        by (cases "ref_loop_st [0..<length (rows (h5 ! A2))] (length (rows (h5 ! A2))) M h5")
      have "length h \<le> M" "M < length h5" by (simp_all add: M_def h5_def len4)
      from ref_loop_st_frame [OF loop this]
      have f: "length h5 \<le> length h6" "\<forall>p < length h. h6 ! p = h5 ! p" by simp_all
      have "snd (row_echelon_form_st linalg_det h A B) = h6"
        by (simp add: unfold aug loop split: sum.splits)
      moreover have "length h \<le> length h6" using f(1) by (simp add: h5_def len4)
      moreover have "\<forall>p < length h. h6 ! p = h ! p"
        using f(2) low4 by (simp add: h5_def nth_append len4)
      ultimately show ?thesis by (simp add: take_unchanged)
    qed
  qed
qed

lemma gaussian_elimination_st_store:
  "snd (gaussian_elimination_st linalg_det h A B) = snd (row_echelon_form_st linalg_det h A B)"
  by (cases "row_echelon_form_st linalg_det h A B")
     (auto simp: gaussian_elimination_st_def split: sum.splits)

lemma augmented_matrix_st_new:
  "hstack (h ! A) (h ! B) = Inr M \<Longrightarrow> augmented_matrix_st h A B = (Inr (length h), h @ [M])"
  by (simp add: augmented_matrix_st_def new_array_def)

lemma swap_rows_st_unchanged:
  "take (length h) (snd (swap_rows_st h M i j)) = h"
proof -
  obtain r h' where sw: "swap_rows_st h M i j = (r, h')"
    by (cases "swap_rows_st h M i j")
  from swap_rows_st_frame [OF sw] have "length h \<le> length h'" "\<forall>p < length h. h' ! p = h ! p"
    by simp_all
  then have "take (length h) h' = h" by (rule take_unchanged)
  with sw show ?thesis by simp
qed

lemma swap_rows_st_same_row:
  assumes "- int (length (rows (h ! M))) \<le> i" "i < int (length (rows (h ! M)))"
  shows "swap_rows_st h M i i = (Inr (length h), h @ [h ! M])"
proof -
  obtain a where a: "a < length (rows (h ! M))" "py_index (length (rows (h ! M))) i = Inr a"
    using py_index_valid [OF assms] by blast
  then show ?thesis
    by (simp add: swap_rows_st_def new_array_def Let_def)
qed

section \<open>The store-level operations compute the value-level results\<close>

lemma eliminate_below_st_value:
  assumes "M < length h"
  shows "(case eliminate_below js row (h ! M) of
            Inl e \<Rightarrow> fst (eliminate_below_st js row M h) = Inl e
          | Inr N \<Rightarrow> eliminate_below_st js row M h = (Inr M, h[M := N]))"
  using assms
proof (induction js arbitrary: h)
  case Nil
  then show ?case by simp
next
  case (Cons j js)
  show ?case
  proof (cases "getitem2 (h ! M) j row")
    case (Inl e)
    then show ?thesis by simp
  next
    case (Inr v)
    define N1 where "N1 = (h ! M)\<lparr>rows := (rows (h ! M))
        [j := map2 (\<lambda>x y. fl_sub x (fl_mul v y)) (rows (h ! M) ! j) (rows (h ! M) ! row)]\<rparr>"
    have M1: "M < length (h[M := N1])" "h[M := N1] ! M = N1"
      using Cons.prems by simp_all
    from Cons.IH [OF M1(1)] M1(2) Inr show ?thesis
      by (simp add: N1_def split: sum.splits)
  qed
qed

lemma normalize_and_eliminate_st_value:
  assumes "M < length h"
  shows "(case normalize_and_eliminate n row p (h ! M) of
            Inl e \<Rightarrow> fst (normalize_and_eliminate_st n row p M h) = Inl e
          | Inr N \<Rightarrow> normalize_and_eliminate_st n row p M h = (Inr M, h[M := N]))"
proof -
  define N1 where "N1 = (h ! M)\<lparr>rows := (rows (h ! M))[row := map (\<lambda>x. fl_div x p) (rows (h ! M) ! row)]\<rparr>"
  have M1: "M < length (h[M := N1])" "h[M := N1] ! M = N1"
    using assms by simp_all
  from eliminate_below_st_value [OF M1(1), of "[row + 1..<n]" row] M1(2) show ?thesis
    by (simp add: normalize_and_eliminate_def normalize_and_eliminate_st_def N1_def
        split: sum.splits)
qed

lemma swap_rows_st_value:
  "(case swap_rows (h ! M) i j of
      Inl e \<Rightarrow> fst (swap_rows_st h M i j) = Inl e
    | Inr N \<Rightarrow> swap_rows_st h M i j = (Inr (length h), h @ [N]))"
  by (simp add: swap_rows_def swap_rows_st_def new_array_def Let_def split: sum.splits)

lemma ref_step_st_value:
  assumes "M < length h"
  shows "(case ref_step n row (h ! M) of
            Inl e \<Rightarrow> fst (ref_step_st n row M h) = Inl e
          | Inr N \<Rightarrow> (\<exists>q h'. ref_step_st n row M h = (Inr q, h') \<and> q < length h' \<and> h' ! q = N))"
proof (cases "getitem2 (h ! M) row row")
  case (Inl e)
  then show ?thesis by (simp add: ref_step_def ref_step_st_def)
next
  case pc: (Inr pivot_candidate)
  show ?thesis
  proof (cases "isclose pivot_candidate (Num 0) default_rtol default_atol")
    case False
    from normalize_and_eliminate_st_value [OF assms, of n row pivot_candidate] pc False assms
    show ?thesis by (simp add: ref_step_def ref_step_st_def split: sum.splits)
  next
    case True
    show ?thesis
    proof (cases "get_index_first_non_zero_from_column (h ! M) (int row) (int row + 1)")
      case (Inl e)
      with pc True show ?thesis by (simp add: ref_step_def ref_step_st_def)
    next
      case s: (Inr swap_row_index)
      show ?thesis
      proof (cases "swap_row_index = - 1")
        case True
        with pc \<open>isclose pivot_candidate (Num 0) default_rtol default_atol\<close> s assms
        show ?thesis by (simp add: ref_step_def ref_step_st_def)
      next
        case False
        note head = pc \<open>isclose pivot_candidate (Num 0) default_rtol default_atol\<close> s False
        show ?thesis
        proof (cases "swap_rows (h ! M) (int row) swap_row_index")
          case (Inl e)
          with swap_rows_st_value [of h M "int row" swap_row_index]
          have "fst (swap_rows_st h M (int row) swap_row_index) = Inl e" by simp
          then obtain h1 where "swap_rows_st h M (int row) swap_row_index = (Inl e, h1)"
            by (cases "swap_rows_st h M (int row) swap_row_index") simp
          with head Inl show ?thesis by (simp add: ref_step_def ref_step_st_def)
        next
          case (Inr N1)
          with swap_rows_st_value [of h M "int row" swap_row_index]
          have sw: "swap_rows_st h M (int row) swap_row_index = (Inr (length h), h @ [N1])"
            by simp
          have at: "length h < length (h @ [N1])" "(h @ [N1]) ! length h = N1" by simp_all
          show ?thesis
          proof (cases "getitem2 N1 row row")
            case (Inl e)
            with head Inr sw at show ?thesis by (simp add: ref_step_def ref_step_st_def)
          next
            case p: (Inr pivot)
            from normalize_and_eliminate_st_value [OF at(1), of n row pivot] at(2)
            have "(case normalize_and_eliminate n row pivot N1 of
                Inl e \<Rightarrow> fst (normalize_and_eliminate_st n row pivot (length h) (h @ [N1])) = Inl e
              | Inr N \<Rightarrow> normalize_and_eliminate_st n row pivot (length h) (h @ [N1])
                    = (Inr (length h), (h @ [N1])[length h := N]))"
              by simp
            with head Inr sw at p show ?thesis
              by (simp add: ref_step_def ref_step_st_def split: sum.splits)
          qed
        qed
      qed
    qed
  qed
qed

lemma ref_loop_st_value:
  assumes "M < length h"
  shows "(case ref_loop rs n (h ! M) of
            Inl e \<Rightarrow> fst (ref_loop_st rs n M h) = Inl e
          | Inr N \<Rightarrow> (\<exists>q h'. ref_loop_st rs n M h = (Inr q, h') \<and> q < length h' \<and> h' ! q = N))"
  using assms
proof (induction rs arbitrary: M h)
  case Nil
  then show ?case by simp
next
  case (Cons row rs)
  show ?case
  proof (cases "ref_step n row (h ! M)")
    case (Inl e)
    with ref_step_st_value [OF Cons.prems, of n row]
    have "fst (ref_step_st n row M h) = Inl e" by simp
    then obtain h1 where "ref_step_st n row M h = (Inl e, h1)"
      by (cases "ref_step_st n row M h") simp
    with Inl show ?thesis by simp
  next
    case (Inr N1)
    with ref_step_st_value [OF Cons.prems, of n row]
    obtain q h1 where st: "ref_step_st n row M h = (Inr q, h1)" "q < length h1" "h1 ! q = N1"
      by auto
    from Cons.IH [OF st(2)] st Inr show ?thesis by (simp split: sum.splits)
  qed
qed

lemma row_echelon_form_st_value:
  assumes "A < length h" "B < length h"
  shows "map_sum id (deref (snd (row_echelon_form_st linalg_det h A B)))
           (fst (row_echelon_form_st linalg_det h A B))
      = row_echelon_form linalg_det (h ! A) (h ! B)"
proof (cases "linalg_det (h ! A)")
  case (Inl e)
  then show ?thesis by (simp add: row_echelon_form_st_def row_echelon_form_def)
next
  case d: (Inr d)
  show ?thesis
  proof (cases "isclose d (Num 0) default_rtol default_atol")
    case True
    with d show ?thesis by (simp add: row_echelon_form_st_def row_echelon_form_def)
  next
    case False
    obtain A1 h1 where n1: "new_array h (h ! A) = (A1, h1)"
      by (cases "new_array h (h ! A)")
    obtain A2 h2 where n2: "new_array h1 (h1 ! A1) = (A2, h2)"
      by (cases "new_array h1 (h1 ! A1)")
    obtain B1 h3 where n3: "new_array h2 (h2 ! B) = (B1, h3)"
      by (cases "new_array h2 (h2 ! B)")
    obtain B2 h4 where n4: "new_array h3 (h3 ! B1) = (B2, h4)"
      by (cases "new_array h3 (h3 ! B1)")
    have A2: "h4 ! A2 = h ! A" and B2: "h4 ! B2 = h ! B"
      using n1 n2 n3 n4 assms by (auto simp: new_array_def nth_append)
    have unfold: "row_echelon_form_st linalg_det h A B =
      (case augmented_matrix_st h4 A2 B2 of
         (Inl e, h5) \<Rightarrow> (Inl e, h5)
       | (Inr M, h5) \<Rightarrow>
           (case ref_loop_st [0..<length (rows (h5 ! A2))] (length (rows (h5 ! A2))) M h5 of
              (Inl e, h6) \<Rightarrow> (Inl e, h6)
            | (Inr M', h6) \<Rightarrow> (Inr (ArrayRef M'), h6)))"
      using d False by (simp add: row_echelon_form_st_def n1 n2 n3 n4)
    have A2lt: "A2 < length h4" using n1 n2 n3 n4 by (auto simp: new_array_def)
    show ?thesis
    proof (cases "hstack (h ! A) (h ! B)")
      case (Inl e)
      with d False A2 B2 show ?thesis
        by (simp add: unfold augmented_matrix_st_def row_echelon_form_def augmented_matrix_def)
    next
      case (Inr N)
      define h5 where "h5 = h4 @ [N]"
      define M where "M = length h4"
      have aug: "augmented_matrix_st h4 A2 B2 = (Inr M, h5)"
        using Inr A2 B2 by (simp add: augmented_matrix_st_def new_array_def h5_def M_def)
      have M: "M < length h5" "h5 ! M = N" by (simp_all add: M_def h5_def)
      have A5: "h5 ! A2 = h ! A" using A2 A2lt by (simp add: h5_def nth_append)
      define n where "n = length (rows (h ! A))"
      have val: "row_echelon_form linalg_det (h ! A) (h ! B)
          = (case ref_loop [0..<n] n N of Inl e \<Rightarrow> Inl e | Inr M' \<Rightarrow> Inr (Array M'))"
        using d False Inr by (simp add: row_echelon_form_def augmented_matrix_def n_def)
      have st: "row_echelon_form_st linalg_det h A B =
          (case ref_loop_st [0..<n] n M h5 of
              (Inl e, h6) \<Rightarrow> (Inl e, h6)
            | (Inr M', h6) \<Rightarrow> (Inr (ArrayRef M'), h6))"
        by (simp add: unfold aug A5 n_def)
      show ?thesis
      proof (cases "ref_loop [0..<n] n N")
        case (Inl e)
        with ref_loop_st_value [OF M(1), of "[0..<n]" n] M(2)
        have "fst (ref_loop_st [0..<n] n M h5) = Inl e" by simp
        then obtain h6 where "ref_loop_st [0..<n] n M h5 = (Inl e, h6)"
          by (cases "ref_loop_st [0..<n] n M h5") simp
        with Inl show ?thesis by (simp add: st val)
      next
        case (Inr N')
        with ref_loop_st_value [OF M(1), of "[0..<n]" n] M(2)
        obtain q h6 where "ref_loop_st [0..<n] n M h5 = (Inr q, h6)" "h6 ! q = N'"
          by auto
        with Inr show ?thesis by (simp add: st val)
      qed
    qed
  qed
qed

lemma gaussian_elimination_st_value:
  assumes "A < length h" "B < length h"
  shows "map_sum id (deref (snd (gaussian_elimination_st linalg_det h A B)))
           (fst (gaussian_elimination_st linalg_det h A B))
      = gaussian_elimination linalg_det (h ! A) (h ! B)"
proof -
  obtain r h' where st: "row_echelon_form_st linalg_det h A B = (r, h')"
    by (cases "row_echelon_form_st linalg_det h A B")
  with row_echelon_form_st_value [OF assms, of linalg_det]
  have v: "row_echelon_form linalg_det (h ! A) (h ! B) = map_sum id (deref h') r" by simp
  show ?thesis
  proof (cases r)
    case (Inl e)
    with st v show ?thesis by (simp add: gaussian_elimination_st_def gaussian_elimination_def)
  next
    case (Inr x)
    with st v show ?thesis
      by (cases x)
         (simp_all add: gaussian_elimination_st_def gaussian_elimination_def back_substitution_def)
  qed
qed

lemma nth_of_take_unchanged: "take (length h) h' = h \<Longrightarrow> p < length h \<Longrightarrow> h' ! p = h ! p"
  by (metis nth_take)

text \<open>
  C8. No operation writes into an array object that existed before the call: after
  \<open>swap_rows\<close>, \<open>row_echelon_form\<close> or \<open>gaussian_elimination\<close>, whether they return or raise,
  the store still begins with exactly the objects it held, so the argument arrays have
  their original values; the array \<open>swap_rows\<close> returns is always a new object, and
  \<open>swap_rows(M, i, i)\<close> with a valid \<open>i\<close> leaves the store as it was plus one new object
  equal to \<open>M\<close>, which it returns.
\<close>

theorem arguments_not_mutated:
  "take (length h) (snd (swap_rows_st h M i j)) = h
   \<and> take (length h) (snd (row_echelon_form_st linalg_det h A B)) = h
   \<and> take (length h) (snd (gaussian_elimination_st linalg_det h A B)) = h
   \<and> (M < length h \<longrightarrow> snd (swap_rows_st h M i j) ! M = h ! M)
   \<and> (A < length h \<and> B < length h \<longrightarrow>
        snd (row_echelon_form_st linalg_det h A B) ! A = h ! A
        \<and> snd (row_echelon_form_st linalg_det h A B) ! B = h ! B
        \<and> snd (gaussian_elimination_st linalg_det h A B) ! A = h ! A
        \<and> snd (gaussian_elimination_st linalg_det h A B) ! B = h ! B)
   \<and> (fst (swap_rows_st h M i j) = Inr q \<longrightarrow> q = length h)
   \<and> (M < length h \<and> - int (length (rows (h ! M))) \<le> i \<and> i < int (length (rows (h ! M))) \<longrightarrow>
        swap_rows_st h M i i = (Inr (length h), h @ [h ! M]))"
proof -
  have 1: "take (length h) (snd (swap_rows_st h M i j)) = h"
    by (rule swap_rows_st_unchanged)
  have 2: "take (length h) (snd (row_echelon_form_st linalg_det h A B)) = h"
    by (rule row_echelon_form_st_frame)
  have 3: "take (length h) (snd (gaussian_elimination_st linalg_det h A B)) = h"
    by (simp add: gaussian_elimination_st_store row_echelon_form_st_frame)
  have 4: "q = length h" if "fst (swap_rows_st h M i j) = Inr q"
  proof -
    obtain r h' where sw: "swap_rows_st h M i j = (r, h')"
      by (cases "swap_rows_st h M i j")
    from swap_rows_st_frame [OF sw] that sw show ?thesis by simp
  qed
  have 5: "swap_rows_st h M i i = (Inr (length h), h @ [h ! M])"
    if "- int (length (rows (h ! M))) \<le> i" "i < int (length (rows (h ! M)))"
    using that by (rule swap_rows_st_same_row)
  from 1 2 3 4 5 nth_of_take_unchanged [OF 1] nth_of_take_unchanged [OF 2]
    nth_of_take_unchanged [OF 3]
  show ?thesis by blast
qed

theorem arguments_not_mutated_witness:
  "(0::nat) < length [array [[1, 3, 6], [0, - 5, 2], [- 4, 5, 8]]]
   \<and> - int (length (rows ([array [[1, 3, 6], [0, - 5, 2], [- 4, 5, 8]]] ! 0))) \<le> 1
   \<and> 1 < int (length (rows ([array [[1, 3, 6], [0, - 5, 2], [- 4, 5, 8]]] ! 0)))
   \<and> swap_rows_st [array [[1, 3, 6], [0, - 5, 2], [- 4, 5, 8]]] 0 1 1
       = (Inr 1, [array [[1, 3, 6], [0, - 5, 2], [- 4, 5, 8]],
                  array [[1, 3, 6], [0, - 5, 2], [- 4, 5, 8]]])
   \<and> fst (swap_rows_st [array [[1, 3, 6], [0, - 5, 2], [- 4, 5, 8]]] 0 0 2) = Inr 1
   \<and> snd (swap_rows_st [array [[1, 3, 6], [0, - 5, 2], [- 4, 5, 8]]] 0 0 2) ! 0
       = array [[1, 3, 6], [0, - 5, 2], [- 4, 5, 8]]
   \<and> snd (swap_rows_st [array [[1, 3, 6], [0, - 5, 2], [- 4, 5, 8]]] 0 0 2) ! 1
       = array [[- 4, 5, 8], [0, - 5, 2], [1, 3, 6]]
   \<and> (0::nat) < length [array [[0, 1], [1, 0]], array [[8], [- 11]]]
   \<and> (1::nat) < length [array [[0, 1], [1, 0]], array [[8], [- 11]]]
   \<and> fst (row_echelon_form_st (det_returns (Num (- 1)))
             [array [[0, 1], [1, 0]], array [[8], [- 11]]] 0 1) = Inr (ArrayRef 7)
   \<and> snd (row_echelon_form_st (det_returns (Num (- 1)))
             [array [[0, 1], [1, 0]], array [[8], [- 11]]] 0 1) ! 0 = array [[0, 1], [1, 0]]
   \<and> snd (row_echelon_form_st (det_returns (Num (- 1)))
             [array [[0, 1], [1, 0]], array [[8], [- 11]]] 0 1) ! 1 = array [[8], [- 11]]
   \<and> snd (row_echelon_form_st (det_returns (Num (- 1)))
             [array [[0, 1], [1, 0]], array [[8], [- 11]]] 0 1) ! 7
       = array [[1, 0, - 11], [0, 1, 8]]
   \<and> snd (gaussian_elimination_st (det_returns (Num (- 1)))
             [array [[0, 1], [1, 0]], array [[8], [- 11]]] 0 1) ! 0 = array [[0, 1], [1, 0]]"
proof -
  let ?h = "[array [[1, 3, 6], [0, - 5, 2], [- 4, 5, 8]]]"
  let ?g = "[array [[0, 1], [1, 0]], array [[8], [- 11]]]"
  let ?det = "det_returns (Num (- 1))"
  have a: "(0::nat) < length ?h" "- int (length (rows (?h ! 0))) \<le> 1"
    "1 < int (length (rows (?h ! 0)))"
    by (simp_all add: array_def)
  have b: "(0::nat) < length ?g" "(1::nat) < length ?g" by simp_all
  have c: "fst (swap_rows_st ?h 0 0 2) = Inr 1"
    "snd (swap_rows_st ?h 0 0 2) ! 1 = array [[- 4, 5, 8], [0, - 5, 2], [1, 3, 6]]"
    by (simp_all add: swap_rows_st_def new_array_def py_index_def array_def)
  have d: "fst (row_echelon_form_st ?det ?g 0 1) = Inr (ArrayRef 7)"
    "snd (row_echelon_form_st ?det ?g 0 1) ! 7 = array [[1, 0, - 11], [0, 1, 8]]"
    by (simp_all add: row_echelon_form_st_def augmented_matrix_st_def ref_step_st_def
        normalize_and_eliminate_st_def swap_rows_st_def new_array_def eval_defs eval_upt)
  from arguments_not_mutated [of ?h 0 1 1 ?det 0 0 1] a
  have 1: "swap_rows_st ?h 0 1 1 = (Inr 1, ?h @ [?h ! 0])" by simp
  from arguments_not_mutated [of ?h 0 0 2 ?det 0 0 1] a
  have 2: "snd (swap_rows_st ?h 0 0 2) ! 0 = ?h ! 0" by blast
  from arguments_not_mutated [of ?g 0 0 0 ?det 0 1 0] b
  have 3: "snd (row_echelon_form_st ?det ?g 0 1) ! 0 = ?g ! 0"
    "snd (row_echelon_form_st ?det ?g 0 1) ! 1 = ?g ! 1"
    "snd (gaussian_elimination_st ?det ?g 0 1) ! 0 = ?g ! 0" by blast+
  from a b c d 1 2 3 show ?thesis by simp
qed

end
